theory Spec2Isabelle
  imports Main
begin

section \<open>Data model\<close>

text \<open>
  The backend is a set of Express route handlers over four Mongoose collections.
  An ObjectId is modelled as a natural number (its order is the byte order of the id),
  a Date as an integer number of milliseconds. Route parameters and \<open>req.user.id\<close> are
  taken in their cast form, as identifiers: the handlers below start after the
  \<open>protect\<close> middleware has authenticated the caller, and a route parameter that does not
  cast to an ObjectId is outside the model. A collection is the list of its documents in
  natural (insertion) order.
\<close>

type_synonym oid = nat
type_synonym date = int

text \<open>\<open>models/Post.js\<close>: \<open>postSchema\<close> with \<open>timestamps: true\<close>.\<close>

record post_doc =
  post_id :: oid
  post_user :: oid
  imageUrl :: string
  caption :: string
  likes :: "oid list"
  post_createdAt :: date
  post_updatedAt :: date

text \<open>\<open>models/Comment.js\<close>: \<open>commentSchema\<close> with \<open>timestamps: true\<close>.\<close>

record comment_doc =
  comment_id :: oid
  comment_post :: oid
  comment_user :: oid
  text_of :: string
  comment_createdAt :: date
  comment_updatedAt :: date

text \<open>
  Modelled from the spec: the schema of \<open>models/Follow.js\<close> is not among the sources.
  The spec gives a FollowEdge as the pair (follower id, following id) with a created
  timestamp; the routes read and write exactly the fields \<open>follower\<close> and \<open>following\<close>.
\<close>

record follow_doc =
  follow_id :: oid
  follower :: oid
  following :: oid
  follow_createdAt :: date

text \<open>
  Modelled from the spec: the schema of \<open>models/User.js\<close> is not among the sources.
  The fields are those the profile and search routes read.
\<close>

record user_doc =
  user_id :: oid
  username :: string
  email :: string
  bio :: string
  profilePicture :: string
  user_createdAt :: date

record store =
  User :: "user_doc list"
  Follow :: "follow_doc list"
  Post :: "post_doc list"
  Comment :: "comment_doc list"

subsection \<open>Responses\<close>

text \<open>
  A response is the status given to \<open>res.status\<close> and the object given to \<open>.json\<close>.
  The object is a record of optional fields: a key the handler does not write is \<open>None\<close>.
\<close>

text \<open>An entry of \<open>errors.array()\<close> of express-validator: the field and its message.\<close>

record verror =
  path :: string
  msg :: string

text \<open>
  A post as it is sent: \<open>post.toObject()\<close> spread into an object literal, with the keys the
  handler adds (\<open>isLiked\<close>, \<open>commentCount\<close>, \<open>comments\<close>) when it adds them.
\<close>

record post_json =
  doc :: post_doc
  isLiked :: "bool option"
  commentCount :: "nat option"
  comments_of :: "comment_doc list option"

text \<open>A user as the search sends it: \<open>.select('username profilePicture bio')\<close>.\<close>

record user_json =
  uj_id :: oid
  uj_username :: string
  uj_profilePicture :: string
  uj_bio :: string

record pagination_json =
  p_page :: int
  p_limit :: int
  p_total :: int
  p_pages :: int

record body =
  success :: bool
  message :: "string option"
  errors :: "verror list option"
  post :: "post_json option"
  posts :: "post_json list option"
  pagination :: "pagination_json option"
  comment :: "comment_doc option"
  comments :: "comment_doc list option"
  likeCount :: "nat option"
  users :: "user_json list option"

record response =
  status :: nat
  body :: body

definition obj :: "bool \<Rightarrow> body" where
  "obj b = \<lparr>success = b, message = None, errors = None, post = None, posts = None,
            pagination = None, comment = None, comments = None, likeCount = None,
            users = None\<rparr>"

text \<open>\<open>res.status(st).json({ success: b, message: m })\<close>\<close>

definition respond :: "nat \<Rightarrow> bool \<Rightarrow> string \<Rightarrow> response" where
  "respond st b m = \<lparr>status = st, body = (obj b)\<lparr>message := Some m\<rparr>\<rparr>"

text \<open>The \<open>catch\<close> block every handler ends with.\<close>

definition serverError :: response where
  "serverError = respond 500 False ''Server error''"

text \<open>\<open>res.status(400).json({ success: false, errors: errors.array() })\<close>\<close>

definition invalid :: "verror list \<Rightarrow> response" where
  "invalid es = \<lparr>status = 400, body = (obj False)\<lparr>errors := Some es\<rparr>\<rparr>"

subsection \<open>Store primitives\<close>

text \<open>\<open>findOneAndDelete\<close>, \<open>doc.deleteOne()\<close>: the first matching document goes.\<close>

fun removeFirst :: "('a \<Rightarrow> bool) \<Rightarrow> 'a list \<Rightarrow> 'a list" where
  "removeFirst P [] = []"
| "removeFirst P (x # xs) = (if P x then xs else x # removeFirst P xs)"

text \<open>\<open>doc.save()\<close>: the stored document with the same \<open>_id\<close> is replaced in place.\<close>

fun replaceFirst :: "('a \<Rightarrow> bool) \<Rightarrow> 'a \<Rightarrow> 'a list \<Rightarrow> 'a list" where
  "replaceFirst P y [] = []"
| "replaceFirst P y (x # xs) = (if P x then y # xs else x # replaceFirst P y xs)"

definition Post_findById :: "store \<Rightarrow> oid \<Rightarrow> post_doc option" where
  "Post_findById s i = find (\<lambda>p. post_id p = i) (Post s)"

definition Comment_findById :: "store \<Rightarrow> oid \<Rightarrow> comment_doc option" where
  "Comment_findById s i = find (\<lambda>c. comment_id c = i) (Comment s)"

definition User_findById :: "store \<Rightarrow> oid \<Rightarrow> user_doc option" where
  "User_findById s i = find (\<lambda>u. user_id u = i) (User s)"

definition Follow_findOne :: "store \<Rightarrow> oid \<Rightarrow> oid \<Rightarrow> follow_doc option" where
  "Follow_findOne s a b = find (\<lambda>f. follower f = a \<and> following f = b) (Follow s)"

text \<open>
  \<open>.sort({ createdAt: -1 })\<close>: descending by the created timestamp and by nothing else.
  Documents with equal timestamps keep the order in which the collection holds them.
\<close>

definition sortPosts :: "post_doc list \<Rightarrow> post_doc list" where
  "sortPosts ps = sort_key (\<lambda>p. - post_createdAt p) ps"

definition sortComments :: "comment_doc list \<Rightarrow> comment_doc list" where
  "sortComments cs = sort_key (\<lambda>c. - comment_createdAt c) cs"

text \<open>\<open>Comment.countDocuments({ post: i })\<close>\<close>

definition Comment_countDocuments :: "store \<Rightarrow> oid \<Rightarrow> nat" where
  "Comment_countDocuments s i = length (filter (\<lambda>c. comment_post c = i) (Comment s))"

text \<open>\<open>Comment.find({ post: i }).sort({ createdAt: -1 })\<close>\<close>

definition Comment_find :: "store \<Rightarrow> oid \<Rightarrow> comment_doc list" where
  "Comment_find s i = sortComments (filter (\<lambda>c. comment_post c = i) (Comment s))"

section \<open>Language and library functions the handlers call\<close>

text \<open>
  \<open>parseInt(x)\<close> with no radix, as ECMAScript defines it: the argument is converted to a
  string (\<open>undefined\<close> becomes the string \<open>undefined\<close>), leading white space is dropped, a
  sign is read, a prefix \<open>0x\<close> or \<open>0X\<close> selects radix 16, and the longest prefix of digits
  is the value. No digit at all is \<open>NaN\<close>, here \<open>None\<close>. Numbers are unbounded integers.
\<close>

definition isWhite :: "char \<Rightarrow> bool" where
  "isWhite c = (of_char c \<in> {9, 10, 11, 12, 13, 32 :: nat})"

definition digitVal :: "nat \<Rightarrow> char \<Rightarrow> nat option" where
  "digitVal radix c =
     (let n = (of_char c :: nat);
          v = (if 48 \<le> n \<and> n \<le> 57 then Some (n - 48)
               else if 97 \<le> n \<and> n \<le> 102 then Some (n - 87)
               else if 65 \<le> n \<and> n \<le> 70 then Some (n - 55)
               else None)
      in case v of None \<Rightarrow> None | Some d \<Rightarrow> if d < radix then Some d else None)"

fun parseDigits :: "nat \<Rightarrow> string \<Rightarrow> nat option \<Rightarrow> nat option" where
  "parseDigits radix [] acc = acc"
| "parseDigits radix (c # cs) acc =
     (case digitVal radix c of
        None \<Rightarrow> acc
      | Some d \<Rightarrow> parseDigits radix cs
                   (Some ((case acc of None \<Rightarrow> 0 | Some a \<Rightarrow> a) * radix + d)))"

definition parseIntString :: "string \<Rightarrow> int option" where
  "parseIntString inputString =
     (let S = dropWhile isWhite inputString;
          sign = (if take 1 S = ''-'' then - 1 else 1 :: int);
          S1 = (if take 1 S = ''-'' \<or> take 1 S = ''+'' then drop 1 S else S);
          hex = (take 2 S1 = ''0x'' \<or> take 2 S1 = ''0X'');
          R = (if hex then 16 else 10);
          S2 = (if hex then drop 2 S1 else S1)
      in case parseDigits R S2 None of
           None \<Rightarrow> None
         | Some n \<Rightarrow> Some (sign * int n))"

definition parseInt :: "string option \<Rightarrow> int option" where
  "parseInt x = (case x of None \<Rightarrow> parseIntString ''undefined''
                         | Some str \<Rightarrow> parseIntString str)"

text \<open>\<open>parseInt(x) || d\<close>: \<open>NaN\<close> and \<open>0\<close> are falsy.\<close>

definition orDefault :: "int option \<Rightarrow> int \<Rightarrow> int" where
  "orDefault v d = (case v of None \<Rightarrow> d | Some n \<Rightarrow> if n = 0 then d else n)"

text \<open>\<open>Math.ceil(a / b)\<close> for integers \<open>a\<close> and \<open>b \<noteq> 0\<close>.\<close>

definition ceilDiv :: "int \<Rightarrow> int \<Rightarrow> int" where
  "ceilDiv a b = - ((- a) div b)"

text \<open>The sanitizer \<open>.trim()\<close> of express-validator.\<close>

definition trim :: "string \<Rightarrow> string" where
  "trim str = rev (dropWhile isWhite (rev (dropWhile isWhite str)))"

text \<open>
  express-validator reads a field through \<open>toString\<close>: a field that is absent from the
  request body is validated as the empty string.
\<close>

definition fieldString :: "string option \<Rightarrow> string" where
  "fieldString v = (case v of None \<Rightarrow> [] | Some str \<Rightarrow> str)"

definition check :: "bool \<Rightarrow> string \<Rightarrow> string \<Rightarrow> verror list" where
  "check ok p m = (if ok then [] else [\<lparr>path = p, msg = m\<rparr>])"

section \<open>routes/posts.js\<close>

text \<open>
  Every handler takes the store, the authenticated caller \<open>uid\<close> (\<open>req.user.id\<close>) and
  its request data, and returns the store it leaves and the response it sends. A handler
  that creates or saves a document also takes the clock \<open>now\<close> and the ObjectId
  \<open>newId\<close> that the driver generates. \<open>populate\<close> only decorates the \<open>user\<close> key of a
  sent document and is not modelled.
\<close>

text \<open>
  The validation chains of \<open>POST /api/posts\<close>. Both validators of \<open>imageUrl\<close> run; the
  validator of \<open>caption\<close> runs when the field is present. \<open>isURL\<close> is the validator.js
  function, a parameter here.
\<close>

definition validatePost :: "(string \<Rightarrow> bool) \<Rightarrow> string option \<Rightarrow> string option \<Rightarrow> verror list" where
  "validatePost isURL imageUrl_f caption_f =
     check (fieldString imageUrl_f \<noteq> []) ''imageUrl'' ''Image URL is required'' @
     check (isURL (fieldString imageUrl_f)) ''imageUrl'' ''Please provide a valid URL'' @
     (case caption_f of
        None \<Rightarrow> []
      | Some c \<Rightarrow> check (length c \<le> 2200) ''caption'' ''Caption cannot exceed 2200 characters'')"

definition plain :: "post_doc \<Rightarrow> post_json" where
  "plain p = \<lparr>doc = p, isLiked = None, commentCount = None, comments_of = None\<rparr>"

text \<open>\<open>router.post('/')\<close>\<close>

definition createPost ::
  "(string \<Rightarrow> bool) \<Rightarrow> store \<Rightarrow> oid \<Rightarrow> date \<Rightarrow> oid \<Rightarrow> string option \<Rightarrow> string option
     \<Rightarrow> store \<times> response" where
  "createPost isURL s uid now newId imageUrl_f caption_f =
     (let errs = validatePost isURL imageUrl_f caption_f in
      if errs \<noteq> [] then (s, invalid errs)
      else
        let new = \<lparr>post_id = newId, post_user = uid, imageUrl = fieldString imageUrl_f,
                   caption = fieldString caption_f, likes = [],
                   post_createdAt = now, post_updatedAt = now\<rparr>
        in (s\<lparr>Post := Post s @ [new]\<rparr>,
            \<lparr>status = 201, body = (obj True)\<lparr>post := Some (plain new)\<rparr>\<rparr>))"

text \<open>\<open>router.get('/:id')\<close>\<close>

definition getPost :: "store \<Rightarrow> oid \<Rightarrow> oid \<Rightarrow> store \<times> response" where
  "getPost s uid i =
     (case Post_findById s i of
        None \<Rightarrow> (s, respond 404 False ''Post not found'')
      | Some p \<Rightarrow>
          (s, \<lparr>status = 200,
               body = (obj True)\<lparr>post := Some \<lparr>doc = p, isLiked = Some (uid \<in> set (likes p)),
                        commentCount = None,
                        comments_of = Some (Comment_find s (post_id p))\<rparr>\<rparr>\<rparr>))"

text \<open>\<open>router.delete('/:id')\<close>\<close>

definition deletePost :: "store \<Rightarrow> oid \<Rightarrow> oid \<Rightarrow> store \<times> response" where
  "deletePost s uid i =
     (case Post_findById s i of
        None \<Rightarrow> (s, respond 404 False ''Post not found'')
      | Some p \<Rightarrow>
          if post_user p \<noteq> uid
          then (s, respond 401 False ''Not authorized to delete this post'')
          else
            let s1 = s\<lparr>Comment := filter (\<lambda>c. comment_post c \<noteq> post_id p) (Comment s)\<rparr>;
                s2 = s1\<lparr>Post := removeFirst (\<lambda>q. post_id q = post_id p) (Post s1)\<rparr>
            in (s2, respond 200 True ''Post deleted successfully''))"

text \<open>\<open>router.post('/:id/like')\<close>\<close>

definition likePost :: "store \<Rightarrow> oid \<Rightarrow> date \<Rightarrow> oid \<Rightarrow> store \<times> response" where
  "likePost s uid now i =
     (case Post_findById s i of
        None \<Rightarrow> (s, respond 404 False ''Post not found'')
      | Some p \<Rightarrow>
          if uid \<in> set (likes p)
          then (s, respond 400 False ''You have already liked this post'')
          else
            let p1 = p\<lparr>likes := likes p @ [uid], post_updatedAt := now\<rparr>
            in (s\<lparr>Post := replaceFirst (\<lambda>q. post_id q = post_id p) p1 (Post s)\<rparr>,
                \<lparr>status = 200,
                 body = (obj True)\<lparr>message := Some ''Post liked successfully'',
                                   likeCount := Some (length (likes p1))\<rparr>\<rparr>))"

text \<open>\<open>router.delete('/:id/like')\<close>\<close>

definition unlikePost :: "store \<Rightarrow> oid \<Rightarrow> date \<Rightarrow> oid \<Rightarrow> store \<times> response" where
  "unlikePost s uid now i =
     (case Post_findById s i of
        None \<Rightarrow> (s, respond 404 False ''Post not found'')
      | Some p \<Rightarrow>
          if uid \<notin> set (likes p)
          then (s, respond 400 False ''You have not liked this post'')
          else
            let p1 = p\<lparr>likes := filter (\<lambda>l. l \<noteq> uid) (likes p), post_updatedAt := now\<rparr>
            in (s\<lparr>Post := replaceFirst (\<lambda>q. post_id q = post_id p) p1 (Post s)\<rparr>,
                \<lparr>status = 200,
                 body = (obj True)\<lparr>message := Some ''Post unliked successfully'',
                                   likeCount := Some (length (likes p1))\<rparr>\<rparr>))"

text \<open>
  The validation chain of \<open>POST /api/posts/:id/comments\<close>: the text is trimmed first, and
  the handler later reads the trimmed text.
\<close>

definition validateComment :: "string option \<Rightarrow> verror list" where
  "validateComment text_f =
     check (trim (fieldString text_f) \<noteq> []) ''text'' ''Comment text is required'' @
     check (length (trim (fieldString text_f)) \<le> 1000) ''text''
       ''Comment cannot exceed 1000 characters''"

text \<open>\<open>router.post('/:id/comments')\<close>\<close>

definition addComment ::
  "store \<Rightarrow> oid \<Rightarrow> date \<Rightarrow> oid \<Rightarrow> oid \<Rightarrow> string option \<Rightarrow> store \<times> response" where
  "addComment s uid now newId i text_f =
     (let errs = validateComment text_f in
      if errs \<noteq> [] then (s, invalid errs)
      else
        case Post_findById s i of
          None \<Rightarrow> (s, respond 404 False ''Post not found'')
        | Some p \<Rightarrow>
            let new = \<lparr>comment_id = newId, comment_post = i, comment_user = uid,
                       text_of = trim (fieldString text_f),
                       comment_createdAt = now, comment_updatedAt = now\<rparr>
            in (s\<lparr>Comment := Comment s @ [new]\<rparr>,
                \<lparr>status = 201, body = (obj True)\<lparr>comment := Some new\<rparr>\<rparr>))"

text \<open>\<open>router.get('/:id/comments')\<close>: the post itself is never looked up.\<close>

definition listComments :: "store \<Rightarrow> oid \<Rightarrow> store \<times> response" where
  "listComments s i =
     (s, \<lparr>status = 200, body = (obj True)\<lparr>comments := Some (Comment_find s i)\<rparr>\<rparr>)"

section \<open>routes/comments.js\<close>

text \<open>\<open>router.delete('/:id')\<close>\<close>

definition deleteComment :: "store \<Rightarrow> oid \<Rightarrow> oid \<Rightarrow> store \<times> response" where
  "deleteComment s uid i =
     (case Comment_findById s i of
        None \<Rightarrow> (s, respond 404 False ''Comment not found'')
      | Some c \<Rightarrow>
          if comment_user c \<noteq> uid
          then (s, respond 401 False ''Not authorized to delete this comment'')
          else (s\<lparr>Comment := removeFirst (\<lambda>d. comment_id d = comment_id c) (Comment s)\<rparr>,
                respond 200 True ''Comment deleted successfully''))"

section \<open>routes/users.js\<close>

text \<open>
  \<open>router.get('/search')\<close>. \<open>regexMatch q name\<close> stands for MongoDB's case-insensitive
  \<open>$regex\<close> match, a parameter here; \<open>select\<close> keeps four fields of each user.
\<close>

definition selected :: "user_doc \<Rightarrow> user_json" where
  "selected u = \<lparr>uj_id = user_id u, uj_username = username u,
                 uj_profilePicture = profilePicture u, uj_bio = bio u\<rparr>"

definition searchUsers :: "(string \<Rightarrow> string \<Rightarrow> bool) \<Rightarrow> store \<Rightarrow> string option \<Rightarrow> store \<times> response" where
  "searchUsers regexMatch s q_f =
     (if fieldString q_f = [] then (s, respond 400 False ''Search query is required'')
      else
        let found = take 20 (filter (\<lambda>u. regexMatch (fieldString q_f) (username u)) (User s))
        in (s, \<lparr>status = 200,
                body = (obj True)\<lparr>users := Some (map selected found)\<rparr>\<rparr>))"

text \<open>\<open>router.post('/:id/follow')\<close>\<close>

definition followUser :: "store \<Rightarrow> oid \<Rightarrow> date \<Rightarrow> oid \<Rightarrow> oid \<Rightarrow> store \<times> response" where
  "followUser s uid now newId i =
     (if i = uid then (s, respond 400 False ''You cannot follow yourself'')
      else
        case User_findById s i of
          None \<Rightarrow> (s, respond 404 False ''User not found'')
        | Some userToFollow \<Rightarrow>
            (case Follow_findOne s uid i of
               Some existingFollow \<Rightarrow>
                 (s, respond 400 False ''You are already following this user'')
             | None \<Rightarrow>
                 (s\<lparr>Follow := Follow s @ [\<lparr>follow_id = newId, follower = uid, following = i,
                                            follow_createdAt = now\<rparr>]\<rparr>,
                  respond 200 True ''Successfully followed user'')))"

text \<open>\<open>router.delete('/:id/follow')\<close>\<close>

definition unfollowUser :: "store \<Rightarrow> oid \<Rightarrow> oid \<Rightarrow> store \<times> response" where
  "unfollowUser s uid i =
     (if i = uid then (s, respond 400 False ''You cannot unfollow yourself'')
      else
        case Follow_findOne s uid i of
          None \<Rightarrow> (s, respond 400 False ''You are not following this user'')
        | Some follow \<Rightarrow>
            (s\<lparr>Follow := removeFirst (\<lambda>f. follower f = uid \<and> following f = i) (Follow s)\<rparr>,
             respond 200 True ''Successfully unfollowed user''))"

section \<open>routes/feed.js\<close>

text \<open>
  The feed handler only reads. Beside its response it returns the store operations it
  issues, in the order it issues them.
\<close>

datatype store_op =
    Follow_find oid
  | Post_find "oid list" int int
  | Post_countDocuments "oid list"
  | Comment_countDocuments_op oid

text \<open>
  \<open>followingIds\<close>: the \<open>following\<close> field of every edge whose \<open>follower\<close> is the caller,
  then the caller pushed at the end.
\<close>

definition followingIds :: "store \<Rightarrow> oid \<Rightarrow> oid list" where
  "followingIds s uid = map following (filter (\<lambda>f. follower f = uid) (Follow s)) @ [uid]"

text \<open>\<open>Post.find({ user: { $in: ids } }).sort({ createdAt: -1 })\<close>, before skip and limit.\<close>

definition scopePosts :: "store \<Rightarrow> oid list \<Rightarrow> post_doc list" where
  "scopePosts s ids = sortPosts (filter (\<lambda>p. post_user p \<in> set ids) (Post s))"

text \<open>
  \<open>.skip(skip).limit(limit)\<close> on a non-negative \<open>skip\<close>. MongoDB reads a negative limit as
  its absolute value; \<open>limit\<close> is never 0 here.
\<close>

definition skipLimit :: "int \<Rightarrow> int \<Rightarrow> 'a list \<Rightarrow> 'a list" where
  "skipLimit skip limit xs = take (nat \<bar>limit\<bar>) (drop (nat skip) xs)"

text \<open>The callback of \<open>posts.map\<close>: one \<open>Comment.countDocuments\<close> for the post it is given.\<close>

definition postDetails :: "store \<Rightarrow> oid \<Rightarrow> post_doc \<Rightarrow> store_op \<times> post_json" where
  "postDetails s uid p =
     (Comment_countDocuments_op (post_id p),
      \<lparr>doc = p, isLiked = Some (uid \<in> set (likes p)),
       commentCount = Some (Comment_countDocuments s (post_id p)), comments_of = None\<rparr>)"

text \<open>
  \<open>router.get('/')\<close>. MongoDB rejects a negative skip, and the \<open>catch\<close> block answers 500.
\<close>

definition getFeed :: "store \<Rightarrow> oid \<Rightarrow> string option \<Rightarrow> string option \<Rightarrow> store_op list \<times> response" where
  "getFeed s uid page_q limit_q =
     (let page = orDefault (parseInt page_q) 1;
          limit = orDefault (parseInt limit_q) 10;
          skip = (page - 1) * limit;
          ids = followingIds s uid
      in if skip < 0
         then ([Follow_find uid, Post_find ids skip limit], serverError)
         else
           let found = skipLimit skip limit (scopePosts s ids);
               total = int (length (filter (\<lambda>p. post_user p \<in> set ids) (Post s)));
               details = map (postDetails s uid) found
           in ([Follow_find uid, Post_find ids skip limit, Post_countDocuments ids]
                 @ map fst details,
               \<lparr>status = 200,
                body = (obj True)\<lparr>posts := Some (map snd details),
                         pagination := Some \<lparr>p_page = page, p_limit = limit, p_total = total,
                                             p_pages = ceilDiv total limit\<rparr>\<rparr>\<rparr>))"

section \<open>The operations together\<close>

text \<open>
  The operations of the API, with the health check and the fallback for an unknown route
  of \<open>server.js\<close>.
\<close>

datatype request =
    CreatePost "string option" "string option"
  | GetPost oid
  | DeletePost oid
  | LikePost oid
  | UnlikePost oid
  | AddComment oid "string option"
  | ListComments oid
  | DeleteComment oid
  | FollowUser oid
  | UnfollowUser oid
  | GetFeed "string option" "string option"
  | SearchUsers "string option"
  | Health
  | NoRoute

fun handle ::
  "(string \<Rightarrow> bool) \<Rightarrow> (string \<Rightarrow> string \<Rightarrow> bool) \<Rightarrow> store \<Rightarrow> oid \<Rightarrow> date \<Rightarrow> oid \<Rightarrow> request
     \<Rightarrow> store \<times> response" where
  "handle isURL regexMatch s uid now newId (CreatePost i c) = createPost isURL s uid now newId i c"
| "handle isURL regexMatch s uid now newId (GetPost i) = getPost s uid i"
| "handle isURL regexMatch s uid now newId (DeletePost i) = deletePost s uid i"
| "handle isURL regexMatch s uid now newId (LikePost i) = likePost s uid now i"
| "handle isURL regexMatch s uid now newId (UnlikePost i) = unlikePost s uid now i"
| "handle isURL regexMatch s uid now newId (AddComment i t) = addComment s uid now newId i t"
| "handle isURL regexMatch s uid now newId (ListComments i) = listComments s i"
| "handle isURL regexMatch s uid now newId (DeleteComment i) = deleteComment s uid i"
| "handle isURL regexMatch s uid now newId (FollowUser i) = followUser s uid now newId i"
| "handle isURL regexMatch s uid now newId (UnfollowUser i) = unfollowUser s uid i"
| "handle isURL regexMatch s uid now newId (GetFeed p l) = (s, snd (getFeed s uid p l))"
| "handle isURL regexMatch s uid now newId (SearchUsers q) = searchUsers regexMatch s q"
| "handle isURL regexMatch s uid now newId Health = (s, respond 200 True ''Server is running'')"
| "handle isURL regexMatch s uid now newId NoRoute = (s, respond 404 False ''Route not found'')"

text \<open>The validation errors express-validator finds in a request, if its route validates.\<close>

fun validationErrors :: "(string \<Rightarrow> bool) \<Rightarrow> request \<Rightarrow> verror list" where
  "validationErrors isURL (CreatePost i c) = validatePost isURL i c"
| "validationErrors isURL (AddComment i t) = validateComment t"
| "validationErrors isURL r = []"

text \<open>The posts of a feed response; a response without the key \<open>posts\<close> has none.\<close>

definition feedPosts :: "response \<Rightarrow> post_json list" where
  "feedPosts r = (case posts (body r) of None \<Rightarrow> [] | Some ps \<Rightarrow> ps)"

fun isCommentCount :: "store_op \<Rightarrow> bool" where
  "isCommentCount (Comment_countDocuments_op i) = True"
| "isCommentCount other = False"

section \<open>The grouped count of the specification\<close>

text \<open>
  These definitions follow the words of the specification, not the code: one operation
  counts the comments grouped by post id, for the ids of the batch, and the annotation reads
  every \<open>commentCount\<close> from that one result. A post id with no comment has no group and
  counts 0.
\<close>

fun bump :: "oid \<Rightarrow> (oid \<times> nat) list \<Rightarrow> (oid \<times> nat) list" where
  "bump k [] = [(k, 1)]"
| "bump k ((a, n) # rest) = (if a = k then (a, Suc n) # rest else (a, n) # bump k rest)"

definition spec_groupedCount :: "comment_doc list \<Rightarrow> oid list \<Rightarrow> (oid \<times> nat) list" where
  "spec_groupedCount cs ids =
     fold (\<lambda>c groups. if comment_post c \<in> set ids then bump (comment_post c) groups
                        else groups) cs []"

definition countOf :: "(oid \<times> nat) list \<Rightarrow> oid \<Rightarrow> nat" where
  "countOf groups k = (case map_of groups k of None \<Rightarrow> 0 | Some n \<Rightarrow> n)"

definition spec_annotate :: "store \<Rightarrow> oid \<Rightarrow> post_doc list \<Rightarrow> post_json list" where
  "spec_annotate s viewerId ps =
     (let groups = spec_groupedCount (Comment s) (map post_id ps)
      in map (\<lambda>p. \<lparr>doc = p, isLiked = Some (viewerId \<in> set (likes p)),
                    commentCount = Some (countOf groups (post_id p)),
                    comments_of = None\<rparr>) ps)"

section \<open>Example data\<close>

text \<open>
  Three users; alice (1) follows bob (2). The posts 10 and 11 carry the same created
  timestamp, and post 10 has two comments.
\<close>

definition post10 :: post_doc where
  "post10 = \<lparr>post_id = 10, post_user = 2, imageUrl = ''http://i/10'', caption = ''x'',
             likes = [3], post_createdAt = 100, post_updatedAt = 100\<rparr>"

definition post11 :: post_doc where
  "post11 = \<lparr>post_id = 11, post_user = 1, imageUrl = ''http://i/11'', caption = ''y'',
             likes = [], post_createdAt = 100, post_updatedAt = 100\<rparr>"

definition post12 :: post_doc where
  "post12 = \<lparr>post_id = 12, post_user = 3, imageUrl = ''http://i/12'', caption = ''z'',
             likes = [], post_createdAt = 300, post_updatedAt = 300\<rparr>"

definition exStore :: store where
  "exStore =
     \<lparr>User = [\<lparr>user_id = 1, username = ''alice'', email = ''a@x.io'', bio = [],
               profilePicture = [], user_createdAt = 10\<rparr>,
              \<lparr>user_id = 2, username = ''bob'', email = ''b@x.io'', bio = [],
               profilePicture = [], user_createdAt = 20\<rparr>,
              \<lparr>user_id = 3, username = ''carol'', email = ''c@x.io'', bio = [],
               profilePicture = [], user_createdAt = 30\<rparr>],
      Follow = [\<lparr>follow_id = 40, follower = 1, following = 2, follow_createdAt = 50\<rparr>],
      Post = [post10, post11, post12],
      Comment = [\<lparr>comment_id = 20, comment_post = 10, comment_user = 1, text_of = ''hi'',
                  comment_createdAt = 110, comment_updatedAt = 110\<rparr>,
                 \<lparr>comment_id = 21, comment_post = 10, comment_user = 3, text_of = ''ho'',
                  comment_createdAt = 120, comment_updatedAt = 120\<rparr>,
                 \<lparr>comment_id = 22, comment_post = 11, comment_user = 2, text_of = ''hm'',
                  comment_createdAt = 130, comment_updatedAt = 130\<rparr>]\<rparr>"

text \<open>Stand-ins for the two library predicates, for the examples only.\<close>

definition exIsURL :: "string \<Rightarrow> bool" where
  "exIsURL u = (take 7 u = ''http://'' \<and> 7 < length u)"

definition exRegexMatch :: "string \<Rightarrow> string \<Rightarrow> bool" where
  "exRegexMatch q name = (take (length q) name = q)"

section \<open>Helper lemmas\<close>

lemma respond_simps:
  "status (respond st b m) = st" "success (body (respond st b m)) = b"
  "message (body (respond st b m)) = Some m" "errors (body (respond st b m)) = None"
  by (simp_all add: respond_def obj_def)

lemma invalid_simps:
  "status (invalid es) = 400" "success (body (invalid es)) = False"
  "message (body (invalid es)) = None" "errors (body (invalid es)) = Some es"
  by (simp_all add: invalid_def obj_def)

lemma parseInt_undefined: "parseInt None = None"
  by (simp add: parseInt_def parseIntString_def digitVal_def isWhite_def)

lemma find_None_removeFirst_snoc:
  "find P xs = None \<Longrightarrow> P x \<Longrightarrow> removeFirst P (xs @ [x]) = xs"
  by (induction xs) (auto split: if_splits)

lemma find_snoc_Some: "P x \<Longrightarrow> find P (xs @ [x]) \<noteq> None"
  by (induction xs) auto

lemma find_removeFirst_distinct:
  "distinct (map f xs) \<Longrightarrow> find (\<lambda>x. f x = i) (removeFirst (\<lambda>x. f x = i) xs) = None"
proof (induction xs)
  case Nil
  then show ?case by simp
next
  case (Cons a xs)
  show ?case
  proof (cases "f a = i")
    case True
    with Cons.prems have "i \<notin> f ` set xs" by simp
    then have "\<forall>x\<in>set xs. f x \<noteq> i" by blast
    with True show ?thesis by (simp add: find_None_iff)
  next
    case False
    with Cons show ?thesis by simp
  qed
qed

lemma find_replaceFirst:
  "find P xs = Some p \<Longrightarrow> P y \<Longrightarrow> find P (replaceFirst P y xs) = Some y"
  by (induction xs) (auto split: if_splits)

lemma Post_findById_Some: "Post_findById s i = Some p \<Longrightarrow> post_id p = i \<and> p \<in> set (Post s)"
  by (auto simp: Post_findById_def find_Some_iff)

lemma sorted_wrt_skipLimit: "sorted_wrt R xs \<Longrightarrow> sorted_wrt R (skipLimit a b xs)"
  by (simp add: skipLimit_def sorted_wrt_take sorted_wrt_drop)


lemma sortPosts_desc: "sorted_wrt (\<lambda>a b. post_createdAt b \<le> post_createdAt a) (sortPosts ps)"
proof -
  have "sorted (map (\<lambda>p. - post_createdAt p) (sortPosts ps))"
    by (simp add: sortPosts_def)
  then show ?thesis by (simp add: sorted_map)
qed

lemma doc_postDetails: "doc (snd (postDetails s u p)) = p"
  by (simp add: postDetails_def)

lemma feedPosts_getFeed:
  "feedPosts (snd (getFeed s u pq lq)) =
     (let page = orDefault (parseInt pq) 1; limit = orDefault (parseInt lq) 10
      in if (page - 1) * limit < 0 then []
         else map (\<lambda>p. snd (postDetails s u p))
                (skipLimit ((page - 1) * limit) limit (scopePosts s (followingIds s u))))"
  by (simp add: getFeed_def feedPosts_def Let_def serverError_def respond_def obj_def comp_def)

lemma map_doc_feedPosts:
  "map doc (feedPosts (snd (getFeed s u pq lq))) =
     (let page = orDefault (parseInt pq) 1; limit = orDefault (parseInt lq) 10
      in if (page - 1) * limit < 0 then []
         else skipLimit ((page - 1) * limit) limit (scopePosts s (followingIds s u)))"
  by (simp add: feedPosts_getFeed Let_def comp_def doc_postDetails)

lemma ops_getFeed:
  "filter isCommentCount (fst (getFeed s u pq lq))
     = map (\<lambda>j. Comment_countDocuments_op (post_id (doc j)))
         (feedPosts (snd (getFeed s u pq lq)))"
  by (simp add: getFeed_def feedPosts_def Let_def serverError_def respond_def obj_def comp_def
        postDetails_def filter_map)

lemma countOf_bump: "countOf (bump j m) k = countOf m k + (if j = k then 1 else 0)"
  by (induction j m rule: bump.induct) (auto simp: countOf_def)

lemma countOf_fold:
  "countOf (fold (\<lambda>c groups. if comment_post c \<in> set ids then bump (comment_post c) groups
                              else groups) cs acc) k
     = countOf acc k
       + (if k \<in> set ids then length (filter (\<lambda>c. comment_post c = k) cs) else 0)"
  by (induction cs arbitrary: acc) (auto simp: countOf_bump)

lemma countOf_spec_groupedCount:
  "k \<in> set ids \<Longrightarrow>
     countOf (spec_groupedCount cs ids) k = length (filter (\<lambda>c. comment_post c = k) cs)"
  unfolding spec_groupedCount_def countOf_fold by (simp add: countOf_def)

lemma spec_annotate_eq: "map (\<lambda>p. snd (postDetails s u p)) ps = spec_annotate s u ps"
  by (simp add: spec_annotate_def Let_def postDetails_def Comment_countDocuments_def
        countOf_spec_groupedCount)

lemma map_doc_spec_annotate: "map doc (spec_annotate s u ps) = ps"
  by (simp add: spec_annotate_def Let_def comp_def)



text \<open>The example store, evaluated.\<close>

lemma exStore_feed:
  "scopePosts exStore (followingIds exStore 1) = [post10, post11]"
  "scopePosts exStore (followingIds exStore (Suc 0)) = [post10, post11]"
  by (simp_all add: scopePosts_def sortPosts_def followingIds_def exStore_def
        post10_def post11_def post12_def)

lemma exStore_find:
  "Post_findById exStore 10 = Some post10" "Post_findById exStore 99 = None"
  by (simp_all add: Post_findById_def exStore_def post10_def post11_def post12_def)

section \<open>Feed ordering\<close>

text \<open>
  C1, as amended. The posts of every feed response are in descending order of their created
  timestamp: of two posts in the page, the later one never has the larger timestamp. The
  query sorts by the timestamp alone, so nothing is said about the identifiers of posts
  with equal timestamps.
\<close>

theorem feed_sorted_by_created:
  "sorted_wrt (\<lambda>a b. post_createdAt (doc b) \<le> post_createdAt (doc a))
     (feedPosts (snd (getFeed s u page_q limit_q)))"
  by (simp add: feedPosts_getFeed Let_def sorted_wrt_map doc_postDetails
        sorted_wrt_skipLimit scopePosts_def sortPosts_desc)

text \<open>The theorem at the feed of alice in the example store.\<close>

theorem feed_sorted_by_created_witness:
  "sorted_wrt (\<lambda>a b. post_createdAt (doc b) \<le> post_createdAt (doc a))
     (feedPosts (snd (getFeed exStore 1 None None))) \<and>
   map doc (feedPosts (snd (getFeed exStore 1 None None))) = [post10, post11]"
  using feed_sorted_by_created [of exStore 1 None None]
  by (simp add: map_doc_feedPosts parseInt_undefined orDefault_def skipLimit_def exStore_feed)

text \<open>
  C1 as stated fails. In the feed of alice, posts 10 and 11 have the same created
  timestamp 100 and the smaller identifier 10 comes first.
\<close>

theorem feed_tie_break_counterexample:
  "map (\<lambda>j. (post_createdAt (doc j), post_id (doc j)))
     (feedPosts (snd (getFeed exStore 1 None None))) = [(100, 10), (100, 11)]"
proof -
  have "map doc (feedPosts (snd (getFeed exStore 1 None None))) = [post10, post11]"
    by (simp add: map_doc_feedPosts parseInt_undefined orDefault_def skipLimit_def exStore_feed)
  then have "map ((\<lambda>p. (post_createdAt p, post_id p)) \<circ> doc)
               (feedPosts (snd (getFeed exStore 1 None None)))
             = map (\<lambda>p. (post_createdAt p, post_id p)) [post10, post11]"
    by (metis map_map)
  then show ?thesis by (simp add: comp_def post10_def post11_def)
qed

section \<open>Comment counts of a feed page\<close>

text \<open>
  C2, as amended. The feed handler issues one \<open>Comment.countDocuments\<close> per post of the
  page, in page order, each keyed by the id of that one post; and the annotated posts it
  sends are the ones the grouped count of the specification gives for the same page.
\<close>

theorem feed_counts_one_per_post:
  "filter isCommentCount (fst (getFeed s u page_q limit_q))
     = map (\<lambda>j. Comment_countDocuments_op (post_id (doc j)))
         (feedPosts (snd (getFeed s u page_q limit_q)))
   \<and> feedPosts (snd (getFeed s u page_q limit_q))
     = spec_annotate s u (map doc (feedPosts (snd (getFeed s u page_q limit_q))))"
proof
  show "filter isCommentCount (fst (getFeed s u page_q limit_q))
     = map (\<lambda>j. Comment_countDocuments_op (post_id (doc j)))
         (feedPosts (snd (getFeed s u page_q limit_q)))"
    by (rule ops_getFeed)
next
  show "feedPosts (snd (getFeed s u page_q limit_q))
     = spec_annotate s u (map doc (feedPosts (snd (getFeed s u page_q limit_q))))"
  proof (cases "(orDefault (parseInt page_q) 1 - 1) * orDefault (parseInt limit_q) 10 < 0")
    case True
    then show ?thesis by (simp add: feedPosts_getFeed Let_def spec_annotate_def)
  next
    case False
    then show ?thesis
      by (simp add: feedPosts_getFeed Let_def spec_annotate_eq map_doc_spec_annotate)
  qed
qed

text \<open>The theorem at the feed of alice: two posts, two count operations, counts 2 and 1.\<close>

theorem feed_counts_one_per_post_witness:
  "length (filter isCommentCount (fst (getFeed exStore 1 None None))) = 2 \<and>
   map commentCount (spec_annotate exStore 1 [post10, post11]) = [Some 2, Some 1] \<and>
   feedPosts (snd (getFeed exStore 1 None None)) = spec_annotate exStore 1 [post10, post11]"
proof -
  have d: "map doc (feedPosts (snd (getFeed exStore 1 None None))) = [post10, post11]"
    by (simp add: map_doc_feedPosts parseInt_undefined orDefault_def skipLimit_def exStore_feed)
  then have "length (feedPosts (snd (getFeed exStore 1 None None))) = 2"
    by (metis length_map length_Cons list.size(3) numeral_2_eq_2)
  moreover have "map commentCount (spec_annotate exStore 1 [post10, post11]) = [Some 2, Some 1]"
    by (simp add: spec_annotate_def spec_groupedCount_def countOf_def exStore_def
          post10_def post11_def)
  ultimately show ?thesis
    using feed_counts_one_per_post [of exStore 1 None None] d by simp
qed

text \<open>
  C2 as stated fails. For the page of two posts of alice the handler issues two count
  operations, one for post 10 and one for post 11, not a single grouped one.
\<close>

theorem feed_grouped_count_counterexample:
  "filter isCommentCount (fst (getFeed exStore 1 None None))
     = [Comment_countDocuments_op 10, Comment_countDocuments_op 11]"
proof -
  have "map doc (feedPosts (snd (getFeed exStore 1 None None))) = [post10, post11]"
    by (simp add: map_doc_feedPosts parseInt_undefined orDefault_def skipLimit_def exStore_feed)
  then have "map (Comment_countDocuments_op \<circ> post_id \<circ> doc)
               (feedPosts (snd (getFeed exStore 1 None None)))
             = map (Comment_countDocuments_op \<circ> post_id) [post10, post11]"
    by (metis map_map)
  then show ?thesis by (simp add: ops_getFeed comp_def post10_def post11_def)
qed

section \<open>Listing the comments of a post\<close>

text \<open>
  C3, as amended. Listing the comments of a post always answers 200 with
  \<open>success: true\<close> and the comments whose \<open>post\<close> field is the given id, newest first,
  whether or not a post with that id exists; the store is left as it was.
\<close>

theorem list_comments_always_succeeds:
  "fst (listComments s i) = s \<and> status (snd (listComments s i)) = 200 \<and>
   success (body (snd (listComments s i))) = True \<and>
   comments (body (snd (listComments s i)))
     = Some (sortComments (filter (\<lambda>c. comment_post c = i) (Comment s)))"
  by (simp add: listComments_def obj_def Comment_find_def)

text \<open>The theorem at an id no post of the example store has.\<close>

theorem list_comments_always_succeeds_witness:
  "Post_findById exStore 99 = None \<and> fst (listComments exStore 99) = exStore \<and>
   status (snd (listComments exStore 99)) = 200 \<and>
   success (body (snd (listComments exStore 99))) = True"
  using list_comments_always_succeeds [of exStore 99] by (simp add: exStore_find)

text \<open>
  C3 as stated fails. No post has the id 99, and listing its comments answers 200 with an
  empty list, not 404.
\<close>

theorem list_comments_missing_post_counterexample:
  "Post_findById exStore 99 = None \<and> status (snd (listComments exStore 99)) = 200 \<and>
   comments (body (snd (listComments exStore 99))) = Some []"
  by (simp add: listComments_def obj_def Comment_find_def exStore_find)
     (simp add: exStore_def sortComments_def)

section \<open>Error responses\<close>

text \<open>
  C4, as amended. Every response with an error status carries \<open>success: false\<close>. It
  carries a \<open>message\<close>, unless express-validator found errors in the request (create post,
  add comment): then the status is 400 and the body carries the array \<open>errors\<close> and no
  \<open>message\<close>.
\<close>

theorem error_body_shape:
  assumes "400 \<le> status (snd (handle isURL regexMatch s u now newId req))"
  shows "success (body (snd (handle isURL regexMatch s u now newId req))) = False \<and>
         (if validationErrors isURL req = []
          then message (body (snd (handle isURL regexMatch s u now newId req))) \<noteq> None \<and>
               errors (body (snd (handle isURL regexMatch s u now newId req))) = None
          else status (snd (handle isURL regexMatch s u now newId req)) = 400 \<and>
               message (body (snd (handle isURL regexMatch s u now newId req))) = None \<and>
               errors (body (snd (handle isURL regexMatch s u now newId req)))
                 = Some (validationErrors isURL req))"
proof (cases req)
  case (CreatePost i c)
  with assms show ?thesis
    by (auto simp: createPost_def Let_def invalid_simps obj_def split: if_splits)
next
  case (GetPost i)
  with assms show ?thesis
    by (auto simp: getPost_def respond_simps split: option.splits)
next
  case (DeletePost i)
  with assms show ?thesis
    by (auto simp: deletePost_def Let_def respond_simps split: option.splits if_splits)
next
  case (LikePost i)
  with assms show ?thesis
    by (auto simp: likePost_def Let_def respond_simps split: option.splits if_splits)
next
  case (UnlikePost i)
  with assms show ?thesis
    by (auto simp: unlikePost_def Let_def respond_simps split: option.splits if_splits)
next
  case (AddComment i t)
  with assms show ?thesis
    by (auto simp: addComment_def Let_def invalid_simps respond_simps
          split: option.splits if_splits)
next
  case (ListComments i)
  with assms show ?thesis by (simp add: listComments_def)
next
  case (DeleteComment i)
  with assms show ?thesis
    by (auto simp: deleteComment_def respond_simps split: option.splits if_splits)
next
  case (FollowUser i)
  with assms show ?thesis
    by (auto simp: followUser_def respond_simps split: option.splits if_splits)
next
  case (UnfollowUser i)
  with assms show ?thesis
    by (auto simp: unfollowUser_def respond_simps split: option.splits if_splits)
next
  case (GetFeed p l)
  with assms show ?thesis
    by (auto simp: getFeed_def Let_def serverError_def respond_simps split: if_splits)
next
  case (SearchUsers q)
  with assms show ?thesis
    by (auto simp: searchUsers_def Let_def respond_simps split: if_splits)
next
  case Health
  with assms show ?thesis by (simp add: respond_simps)
next
  case NoRoute
  with assms show ?thesis by (simp add: respond_simps)
qed

text \<open>The theorem at a missing post: status 404, with a message and no \<open>errors\<close>.\<close>

theorem error_body_shape_witness:
  "400 \<le> status (snd (handle exIsURL exRegexMatch exStore 2 500 70 (GetPost 99))) \<and>
   success (body (snd (handle exIsURL exRegexMatch exStore 2 500 70 (GetPost 99)))) = False \<and>
   message (body (snd (handle exIsURL exRegexMatch exStore 2 500 70 (GetPost 99))))
     = Some ''Post not found'' \<and>
   errors (body (snd (handle exIsURL exRegexMatch exStore 2 500 70 (GetPost 99)))) = None"
proof -
  have st: "getPost exStore 2 99 = (exStore, respond 404 False ''Post not found'')"
    by (simp add: getPost_def exStore_find)
  have h: "400 \<le> status (snd (handle exIsURL exRegexMatch exStore 2 500 70 (GetPost 99)))"
    by (simp add: st respond_simps)
  from error_body_shape [OF h] h show ?thesis
    by (simp add: st respond_simps)
qed

text \<open>
  C4 as stated fails. A create-post request without an image URL and an add-comment request
  whose text is blank are answered 400 with \<open>success: false\<close> and no \<open>message\<close>.
\<close>

theorem validation_error_counterexample:
  "status (snd (handle exIsURL exRegexMatch exStore 1 500 70 (CreatePost None None))) = 400 \<and>
   success (body (snd (handle exIsURL exRegexMatch exStore 1 500 70 (CreatePost None None))))
     = False \<and>
   message (body (snd (handle exIsURL exRegexMatch exStore 1 500 70 (CreatePost None None))))
     = None \<and>
   status (snd (handle exIsURL exRegexMatch exStore 1 500 70 (AddComment 10 (Some '' ''))))
     = 400 \<and>
   message (body (snd (handle exIsURL exRegexMatch exStore 1 500 70 (AddComment 10 (Some '' '')))))
     = None"
  by (simp add: createPost_def addComment_def validatePost_def validateComment_def check_def
        fieldString_def trim_def isWhite_def exIsURL_def invalid_simps)

section \<open>Deleting a post\<close>

text \<open>
  C5. Let the post with id \<open>i\<close> exist. When its owner deletes it, the answer is 200, no
  comment referencing \<open>i\<close> remains and, post ids being unique in the collection, fetching
  the post answers 404 Post not found. When anybody else asks, the answer is 401 Not
  authorized and the store, posts and comments, is unchanged.
\<close>

theorem delete_post_cascade:
  assumes "Post_findById s i = Some p"
  shows "(post_user p = u \<longrightarrow>
            snd (deletePost s u i) = respond 200 True ''Post deleted successfully'' \<and>
            filter (\<lambda>c. comment_post c = i) (Comment (fst (deletePost s u i))) = [] \<and>
            (distinct (map post_id (Post s)) \<longrightarrow>
               Post_findById (fst (deletePost s u i)) i = None \<and>
               snd (getPost (fst (deletePost s u i)) v i) = respond 404 False ''Post not found''))
       \<and> (post_user p \<noteq> u \<longrightarrow>
            fst (deletePost s u i) = s \<and>
            snd (deletePost s u i) = respond 401 False ''Not authorized to delete this post'')"
proof -
  have pid: "post_id p = i" using assms by (simp add: Post_findById_Some)
  have del: "post_user p = u \<Longrightarrow>
      deletePost s u i = (s\<lparr>Comment := filter (\<lambda>c. comment_post c \<noteq> i) (Comment s),
                             Post := removeFirst (\<lambda>q. post_id q = i) (Post s)\<rparr>,
                          respond 200 True ''Post deleted successfully'')"
    using assms pid by (simp add: deletePost_def Let_def)
  have gone: "distinct (map post_id (Post s)) \<Longrightarrow>
      find (\<lambda>q. post_id q = i) (removeFirst (\<lambda>q. post_id q = i) (Post s)) = None"
    by (rule find_removeFirst_distinct)
  show ?thesis
  proof (intro conjI impI)
    assume "post_user p = u"
    then show "snd (deletePost s u i) = respond 200 True ''Post deleted successfully''"
      by (simp add: del)
  next
    assume "post_user p = u"
    then show "filter (\<lambda>c. comment_post c = i) (Comment (fst (deletePost s u i))) = []"
      by (simp add: del filter_empty_conv)
  next
    assume "post_user p = u" and "distinct (map post_id (Post s))"
    then show "Post_findById (fst (deletePost s u i)) i = None"
      by (simp add: del Post_findById_def gone)
  next
    assume "post_user p = u" and "distinct (map post_id (Post s))"
    then show "snd (getPost (fst (deletePost s u i)) v i) = respond 404 False ''Post not found''"
      by (simp add: del getPost_def Post_findById_def gone)
  next
    assume "post_user p \<noteq> u"
    then show "fst (deletePost s u i) = s" using assms by (simp add: deletePost_def)
  next
    assume "post_user p \<noteq> u"
    then show "snd (deletePost s u i) = respond 401 False ''Not authorized to delete this post''"
      using assms by (simp add: deletePost_def)
  qed
qed

text \<open>
  The theorem at post 10 of the example store, which has two comments: deleted by its
  owner bob (2), and asked for by alice (1).
\<close>

theorem delete_post_cascade_witness:
  "Post_findById exStore 10 = Some post10 \<and> post_user post10 = 2 \<and>
   distinct (map post_id (Post exStore)) \<and>
   length (filter (\<lambda>c. comment_post c = 10) (Comment exStore)) = 2 \<and>
   filter (\<lambda>c. comment_post c = 10) (Comment (fst (deletePost exStore 2 10))) = [] \<and>
   snd (getPost (fst (deletePost exStore 2 10)) 2 10) = respond 404 False ''Post not found'' \<and>
   fst (deletePost exStore 1 10) = exStore \<and>
   snd (deletePost exStore 1 10) = respond 401 False ''Not authorized to delete this post''"
proof -
  have f: "Post_findById exStore 10 = Some post10" by (rule exStore_find)
  have o: "post_user post10 = 2" "post_user post10 \<noteq> 1" by (simp_all add: post10_def)
  have d: "distinct (map post_id (Post exStore))"
    by (simp add: exStore_def post10_def post11_def post12_def)
  have n: "length (filter (\<lambda>c. comment_post c = 10) (Comment exStore)) = 2"
    by (simp add: exStore_def)
  from delete_post_cascade [OF f, of 2 2] delete_post_cascade [OF f, of 1 2] f o d n
  show ?thesis by simp
qed

section \<open>Follow and unfollow\<close>

text \<open>
  C6. For distinct users \<open>A\<close> and \<open>B\<close>: when the follow of \<open>B\<close> by \<open>A\<close> succeeds, the
  unfollow that comes next succeeds and leaves the store, and so the follow graph, exactly
  as it was before the follow; a second unfollow is then answered 400 You are not following
  this user, and changes nothing.
\<close>

theorem follow_unfollow_round_trip:
  assumes "A \<noteq> B"
    and "status (snd (followUser s A now newId B)) = 200"
  shows "fst (unfollowUser (fst (followUser s A now newId B)) A B) = s \<and>
         snd (unfollowUser (fst (followUser s A now newId B)) A B)
           = respond 200 True ''Successfully unfollowed user'' \<and>
         fst (unfollowUser s A B) = s \<and>
         snd (unfollowUser s A B) = respond 400 False ''You are not following this user''"
proof -
  from assms obtain w where u: "User_findById s B = Some w"
    by (auto simp: followUser_def respond_def split: option.splits)
  from assms u have none: "Follow_findOne s A B = None"
    by (auto simp: followUser_def respond_def split: option.splits)
  let ?e = "\<lparr>follow_id = newId, follower = A, following = B, follow_createdAt = now\<rparr>"
  let ?P = "\<lambda>f. follower f = A \<and> following f = B"
  have s1: "fst (followUser s A now newId B) = s\<lparr>Follow := Follow s @ [?e]\<rparr>"
    using assms(1) u none by (simp add: followUser_def)
  have fnd: "find ?P (Follow s) = None"
    using none by (simp add: Follow_findOne_def)
  have rm: "removeFirst ?P (Follow s @ [?e]) = Follow s"
    using fnd by (rule find_None_removeFirst_snoc) simp
  have "find ?P (Follow s @ [?e]) \<noteq> None"
    by (rule find_snoc_Some) simp
  then obtain z where z: "find ?P (Follow s @ [?e]) = Some z" by blast
  have "unfollowUser (s\<lparr>Follow := Follow s @ [?e]\<rparr>) A B
          = (s, respond 200 True ''Successfully unfollowed user'')"
    using assms(1) z rm by (simp add: unfollowUser_def Follow_findOne_def)
  moreover have "unfollowUser s A B
          = (s, respond 400 False ''You are not following this user'')"
    using assms(1) none by (simp add: unfollowUser_def)
  ultimately show ?thesis using s1 by simp
qed

text \<open>The theorem at alice (1) following carol (3) in the example store.\<close>

theorem follow_unfollow_round_trip_witness:
  "(1 :: nat) \<noteq> 3 \<and> status (snd (followUser exStore 1 60 41 3)) = 200 \<and>
   fst (followUser exStore 1 60 41 3) \<noteq> exStore \<and>
   fst (unfollowUser (fst (followUser exStore 1 60 41 3)) 1 3) = exStore \<and>
   snd (unfollowUser exStore 1 3) = respond 400 False ''You are not following this user''"
proof -
  have f: "followUser exStore 1 60 41 3
             = (exStore\<lparr>Follow := Follow exStore @
                  [\<lparr>follow_id = 41, follower = 1, following = 3, follow_createdAt = 60\<rparr>]\<rparr>,
                respond 200 True ''Successfully followed user'')"
    by (simp add: followUser_def User_findById_def Follow_findOne_def exStore_def)
  have h: "status (snd (followUser exStore 1 60 41 3)) = 200"
    by (simp only: f snd_conv respond_simps)
  have ne: "fst (followUser exStore 1 60 41 3) \<noteq> exStore"
  proof
    assume "fst (followUser exStore 1 60 41 3) = exStore"
    then have "length (Follow (fst (followUser exStore 1 60 41 3))) = length (Follow exStore)"
      by simp
    then show False by (simp only: f fst_conv) simp
  qed
  have d: "(1 :: nat) \<noteq> 3" by simp
  from follow_unfollow_round_trip [OF d h] d h ne show ?thesis by blast
qed



section \<open>Like and unlike\<close>

text \<open>
  C7. Let the post with id \<open>i\<close> exist. A user who is already in its like set and likes it
  again is answered 400 You have already liked this post, and nothing changes. A user who
  is not in the like set can like it and then unlike it: both succeed, the count goes up
  by one and comes back, and the stored like set is the original one.
\<close>

theorem like_conflict_and_round_trip:
  assumes "Post_findById s i = Some p"
  shows "(u \<in> set (likes p) \<longrightarrow>
            fst (likePost s u now i) = s \<and>
            snd (likePost s u now i) = respond 400 False ''You have already liked this post'')
       \<and> (u \<notin> set (likes p) \<longrightarrow>
            status (snd (likePost s u now i)) = 200 \<and>
            likeCount (body (snd (likePost s u now i))) = Some (length (likes p) + 1) \<and>
            status (snd (unlikePost (fst (likePost s u now i)) u now2 i)) = 200 \<and>
            likeCount (body (snd (unlikePost (fst (likePost s u now i)) u now2 i)))
              = Some (length (likes p)) \<and>
            map_option likes
              (Post_findById (fst (unlikePost (fst (likePost s u now i)) u now2 i)) i)
              = Some (likes p))"
proof (intro conjI impI)
  assume "u \<in> set (likes p)"
  then show "fst (likePost s u now i) = s" using assms by (simp add: likePost_def)
next
  assume "u \<in> set (likes p)"
  then show "snd (likePost s u now i) = respond 400 False ''You have already liked this post''"
    using assms by (simp add: likePost_def)
next
  assume nl: "u \<notin> set (likes p)"
  have pid: "post_id p = i" using assms by (simp add: Post_findById_Some)
  let ?p1 = "p\<lparr>likes := likes p @ [u], post_updatedAt := now\<rparr>"
  let ?s1 = "s\<lparr>Post := replaceFirst (\<lambda>q. post_id q = i) ?p1 (Post s)\<rparr>"
  have l: "likePost s u now i =
            (?s1, \<lparr>status = 200,
                   body = (obj True)\<lparr>message := Some ''Post liked successfully'',
                                     likeCount := Some (length (likes ?p1))\<rparr>\<rparr>)"
    using assms nl pid by (simp add: likePost_def Let_def)
  have f1: "Post_findById ?s1 i = Some ?p1"
    using assms pid by (simp add: Post_findById_def find_replaceFirst)
  have flt: "filter (\<lambda>l. l \<noteq> u) (likes p) = likes p"
    using nl by (auto simp: filter_id_conv)
  let ?p2 = "?p1\<lparr>likes := likes p, post_updatedAt := now2\<rparr>"
  let ?s2 = "?s1\<lparr>Post := replaceFirst (\<lambda>q. post_id q = i) ?p2 (Post ?s1)\<rparr>"
  have ul: "unlikePost ?s1 u now2 i =
            (?s2, \<lparr>status = 200,
                   body = (obj True)\<lparr>message := Some ''Post unliked successfully'',
                                     likeCount := Some (length (likes p))\<rparr>\<rparr>)"
    using f1 pid flt by (simp add: unlikePost_def Let_def)
  have f2: "Post_findById ?s2 i = Some ?p2"
    using f1 pid by (simp add: Post_findById_def find_replaceFirst)
  show "status (snd (likePost s u now i)) = 200" by (simp add: l)
  show "likeCount (body (snd (likePost s u now i))) = Some (length (likes p) + 1)"
    by (simp add: l obj_def)
  show "status (snd (unlikePost (fst (likePost s u now i)) u now2 i)) = 200"
    by (simp add: l ul)
  show "likeCount (body (snd (unlikePost (fst (likePost s u now i)) u now2 i)))
              = Some (length (likes p))"
    by (simp add: l ul obj_def)
  show "map_option likes
          (Post_findById (fst (unlikePost (fst (likePost s u now i)) u now2 i)) i)
          = Some (likes p)"
    using f2 by (simp add: l ul)
qed

text \<open>
  The theorem at post 10 of the example store, liked by carol (3) only: carol likes it
  again, and bob (2) likes and unlikes it.
\<close>

theorem like_conflict_and_round_trip_witness:
  "Post_findById exStore 10 = Some post10 \<and> 3 \<in> set (likes post10) \<and>
   2 \<notin> set (likes post10) \<and> length (likes post10) = 1 \<and>
   snd (likePost exStore 3 500 10) = respond 400 False ''You have already liked this post'' \<and>
   likeCount (body (snd (likePost exStore 2 500 10))) = Some 2 \<and>
   likeCount (body (snd (unlikePost (fst (likePost exStore 2 500 10)) 2 600 10))) = Some 1"
proof -
  have f: "Post_findById exStore 10 = Some post10" by (rule exStore_find)
  have m: "3 \<in> set (likes post10)" "2 \<notin> set (likes post10)" "length (likes post10) = 1"
    by (simp_all add: post10_def)
  from like_conflict_and_round_trip [OF f, of 3 500 600]
       like_conflict_and_round_trip [OF f, of 2 500 600] f m
  show ?thesis by simp
qed

section \<open>Feed scope\<close>



section \<open>Feed paging defaults\<close>

text \<open>
  C10. When the query parameter \<open>page\<close> is absent, is not a number or parses to 0, the
  feed answers 200 with the first page (nothing is skipped) and the pagination reports page
  1. When \<open>limit\<close> is absent, is not a number or parses to 0, the page size is 10: the
  response carries at most the ten posts after the skipped ones, and the pagination reports
  limit 10 and the page count for 10. (With a page below 1 the skip is negative, the store
  rejects the query and the answer is 500.)
\<close>

theorem feed_query_defaults:
  assumes r: "r = snd (getFeed s u page_q limit_q)"
  shows "((page_q = None \<or> parseInt page_q = None \<or> parseInt page_q = Some 0) \<longrightarrow>
            status r = 200 \<and> map_option p_page (pagination (body r)) = Some 1 \<and>
            map doc (feedPosts r)
              = take (nat \<bar>orDefault (parseInt limit_q) 10\<bar>) (scopePosts s (followingIds s u)))
       \<and> ((limit_q = None \<or> parseInt limit_q = None \<or> parseInt limit_q = Some 0) \<longrightarrow>
            (if orDefault (parseInt page_q) 1 < 1 then r = serverError
             else status r = 200 \<and> map_option p_limit (pagination (body r)) = Some 10 \<and>
                  map_option p_pages (pagination (body r))
                    = map_option (\<lambda>g. ceilDiv (p_total g) 10) (pagination (body r)) \<and>
                  map doc (feedPosts r)
                    = take 10 (drop (nat ((orDefault (parseInt page_q) 1 - 1) * 10))
                                 (scopePosts s (followingIds s u)))))"
proof (rule conjI; rule impI)
  assume "page_q = None \<or> parseInt page_q = None \<or> parseInt page_q = Some 0"
  then have p1: "orDefault (parseInt page_q) 1 = 1"
    by (auto simp: orDefault_def parseInt_undefined)
  show "status r = 200 \<and> map_option p_page (pagination (body r)) = Some 1 \<and>
        map doc (feedPosts r)
          = take (nat \<bar>orDefault (parseInt limit_q) 10\<bar>) (scopePosts s (followingIds s u))"
    unfolding r
    by (simp add: getFeed_def Let_def p1 feedPosts_def obj_def skipLimit_def comp_def
          postDetails_def)
next
  assume "limit_q = None \<or> parseInt limit_q = None \<or> parseInt limit_q = Some 0"
  then have l10: "orDefault (parseInt limit_q) 10 = 10"
    by (auto simp: orDefault_def parseInt_undefined)
  show "if orDefault (parseInt page_q) 1 < 1 then r = serverError
        else status r = 200 \<and> map_option p_limit (pagination (body r)) = Some 10 \<and>
             map_option p_pages (pagination (body r))
               = map_option (\<lambda>g. ceilDiv (p_total g) 10) (pagination (body r)) \<and>
             map doc (feedPosts r)
               = take 10 (drop (nat ((orDefault (parseInt page_q) 1 - 1) * 10))
                            (scopePosts s (followingIds s u)))"
    unfolding r
    by (simp add: getFeed_def Let_def l10 feedPosts_def obj_def skipLimit_def comp_def
          postDetails_def)
qed

text \<open>
  The theorem at the feed of alice with \<open>page=abc\<close> and \<open>limit=0\<close>: page 1 and limit 10
  are reported, and both posts in scope are sent.
\<close>

theorem feed_query_defaults_witness:
  "parseInt (Some ''abc'') = None \<and> parseInt (Some ''0'') = Some 0 \<and>
   status (snd (getFeed exStore 1 (Some ''abc'') (Some ''0''))) = 200 \<and>
   map_option p_page (pagination (body (snd (getFeed exStore 1 (Some ''abc'') (Some ''0'')))))
     = Some 1 \<and>
   map_option p_limit (pagination (body (snd (getFeed exStore 1 (Some ''abc'') (Some ''0'')))))
     = Some 10 \<and>
   map doc (feedPosts (snd (getFeed exStore 1 (Some ''abc'') (Some ''0'')))) = [post10, post11]"
proof -
  have a: "parseInt (Some ''abc'') = None"
    by (simp add: parseInt_def parseIntString_def digitVal_def isWhite_def)
  have b: "parseInt (Some ''0'') = Some 0"
    by (simp add: parseInt_def parseIntString_def digitVal_def isWhite_def)
  have c: "orDefault (parseInt (Some ''abc'')) 1 = 1" "orDefault (parseInt (Some ''0'')) 10 = 10"
    by (simp_all add: a b orDefault_def)
  from feed_query_defaults [where s = exStore and u = 1 and page_q = "Some ''abc''"
         and limit_q = "Some ''0''", OF refl] a b c
  show ?thesis by (simp add: exStore_feed)
qed

end
